theory Spec2Isabelle
  imports Main "HOL-Library.Sublist" "HOL-Library.AList"
begin

section \<open>The rules engine of gmail-rules-manager (src/rules\_engine.py)\<close>

text \<open>
  A shallow embedding of \<^verbatim>\<open>RulesEngine\<close>: the string matching of
  \<^verbatim>\<open>_condition_matches\<close>, the date comparison of \<^verbatim>\<open>_check_date_condition\<close>,
  the combinators of \<^verbatim>\<open>_rule_applies\<close> and the two loops of \<^verbatim>\<open>evaluate_emails\<close>.

  Conventions of the model:
  \<^item> a Python \<^verbatim>\<open>str\<close> is a \<open>string\<close>, each \<open>char\<close> being one code point below 256
    (ASCII and Latin-1); text with a code point from 256 on is outside the model;
  \<^item> a nullable column of the \<^verbatim>\<open>Email\<close> table (src/db.py) is an \<open>option\<close>;
  \<^item> a naive \<^verbatim>\<open>datetime\<close> is the number of microseconds since an epoch, an \<open>int\<close>;
  \<^item> a raised exception is the \<open>Inl\<close> of a sum, and it propagates through every caller,
    since nothing in the engine catches it (only the \<^verbatim>\<open>ValueError\<close> of \<^verbatim>\<open>int(value)\<close>
    is caught, inside \<^verbatim>\<open>_check_date_condition\<close>);
  \<^item> the entries of a condition are strings, as the docstring of
    \<^verbatim>\<open>_check_date_condition\<close> has them (\<^verbatim>\<open>value (str): Value to compare with (e.g.,
    '7')\<close>) and as \<^verbatim>\<open>_condition_matches\<close> uses them (\<^verbatim>\<open>value.lower()\<close>).
\<close>

subsection \<open>Exceptions\<close>

datatype error =
    ValueError string   \<comment> \<open>\<^verbatim>\<open>raise ValueError(msg)\<close>\<close>
  | AttributeError      \<comment> \<open>\<^verbatim>\<open>None.lower()\<close>\<close>

subsection \<open>Python's string operations\<close>

text \<open>
  \<^verbatim>\<open>str.lower\<close>, character by character. Below 256 the cased capitals are \<open>A\<close>..\<open>Z\<close>
  (65..90) and the Latin-1 capitals 192..222 without the multiplication sign 215; each has
  its small letter 32 places further.
\<close>

definition is_capital :: "nat \<Rightarrow> bool" where
  "is_capital n = ((65 \<le> n \<and> n \<le> 90) \<or> (192 \<le> n \<and> n \<le> 222 \<and> n \<noteq> 215))"

definition lower_char :: "char \<Rightarrow> char" where
  "lower_char c =
     (let n = (of_char c :: nat) in if is_capital n then char_of (n + 32) else c)"

definition lower :: "string \<Rightarrow> string" where
  "lower s = map lower_char s"



text \<open>
  \<^verbatim>\<open>a in b\<close> on two strings is the contiguous-substring test, \<^const>\<open>sublist\<close> of the
  library (with the empty string inside every string).
\<close>

subsection \<open>Python's \<^verbatim>\<open>int(str)\<close>\<close>

text \<open>
  \<^verbatim>\<open>int(s)\<close> in base 10: surrounding whitespace (tab, line feed, vertical tab, form
  feed, carriage return, space, and the next-line and no-break-space characters 133 and
  160) is dropped, one sign is allowed, then at least one digit, the decimal digits below
  256 being \<open>0\<close>..\<open>9\<close>, with single underscores allowed between digits. Anything else raises
  \<^verbatim>\<open>ValueError\<close>, which is \<open>None\<close> here. The bound that recent interpreters put on the
  number of digits (4300 unless configured otherwise) is not part of the model.
\<close>

definition is_space :: "char \<Rightarrow> bool" where
  "is_space c =
     (let n = (of_char c :: nat) in (9 \<le> n \<and> n \<le> 13) \<or> n = 32 \<or> n = 133 \<or> n = 160)"

definition is_digit :: "char \<Rightarrow> bool" where
  "is_digit c = (let n = (of_char c :: nat) in 48 \<le> n \<and> n \<le> 57)"

definition digit_val :: "char \<Rightarrow> int" where
  "digit_val c = int (of_char c) - 48"

definition strip :: "string \<Rightarrow> string" where
  "strip s = rev (dropWhile is_space (rev (dropWhile is_space s)))"

fun digits_value :: "int \<Rightarrow> string \<Rightarrow> int option" where
  "digits_value acc [] = Some acc"
| "digits_value acc (c # cs) =
     (if is_digit c then digits_value (10 * acc + digit_val c) cs
      else if c = CHR ''_'' then
        (case cs of
           [] \<Rightarrow> None
         | d # _ \<Rightarrow> if is_digit d then digits_value acc cs else None)
      else None)"

definition unsigned_int :: "string \<Rightarrow> int option" where
  "unsigned_int s =
     (case s of
        [] \<Rightarrow> None
      | c # _ \<Rightarrow> if is_digit c then digits_value 0 s else None)"

definition py_int :: "string \<Rightarrow> int option" where
  "py_int s =
     (case strip s of
        [] \<Rightarrow> None
      | c # cs \<Rightarrow>
          if c = CHR ''-'' then map_option uminus (unsigned_int cs)
          else if c = CHR ''+'' then unsigned_int cs
          else unsigned_int (c # cs))"

subsection \<open>The data model\<close>

type_synonym datetime = int

text \<open>The columns of \<^verbatim>\<open>Email\<close> (src/db.py) that the engine reads.\<close>

record email =
  email_id :: int
  from_address :: "string option"
  to_address :: "string option"
  subject :: "string option"
  body_text :: "string option"
  received_date :: "datetime option"

text \<open>
  A condition of the rules file: \<^verbatim>\<open>condition['field']\<close>, \<^verbatim>\<open>condition['predicate']\<close>,
  \<^verbatim>\<open>condition['value']\<close> and the optional \<^verbatim>\<open>condition.get('unit', 'days')\<close>.
\<close>

record condition =
  cond_field :: string
  cond_predicate :: string
  cond_value :: string
  cond_unit :: "string option"

text \<open>
  A rule: \<^verbatim>\<open>rule['id']\<close>, \<^verbatim>\<open>rule['predicate']\<close>, \<^verbatim>\<open>rule['conditions']\<close>,
  \<^verbatim>\<open>rule['actions']\<close>. The engine never looks inside an action, so its type is a parameter.
\<close>

record 'a rule =
  rule_id :: string
  rule_predicate :: string
  rule_conditions :: "condition list"
  rule_actions :: "'a list"

text \<open>
  The returned dictionary, in insertion order: \<^verbatim>\<open>results[email_id] = applicable_actions\<close>
  is \<^const>\<open>AList.update\<close>, which replaces the value of a key already there and appends a
  new key at the end. An entry \<^verbatim>\<open>{'action': action, 'rule_id': rule['id']}\<close> is a pair.
\<close>

type_synonym 'a action_plan = "(int \<times> ('a \<times> string) list) list"

subsection \<open>The clock\<close>

text \<open>
  \<^verbatim>\<open>_check_date_condition\<close> reads \<^verbatim>\<open>datetime.utcnow()\<close> itself. The reading is an input
  of the model: \<open>clk i j k\<close> is what the clock returns when the check of condition \<open>k\<close> of
  rule \<open>j\<close> on the \<open>i\<close>-th evaluated message reads it (positions count from 0).
\<close>

type_synonym clock = "nat \<Rightarrow> nat \<Rightarrow> nat \<Rightarrow> datetime"

definition fixed_clock :: "datetime \<Rightarrow> clock" where
  "fixed_clock t = (\<lambda>i j k. t)"

subsection \<open>\<^verbatim>\<open>_check_date_condition\<close>\<close>

text \<open>\<^verbatim>\<open>timedelta.days\<close>: whole days, rounded towards minus infinity.\<close>

definition timedelta_days :: "int \<Rightarrow> int" where
  "timedelta_days delta = delta div 86400000000"

definition check_date_condition ::
  "datetime \<Rightarrow> string \<Rightarrow> string \<Rightarrow> string \<Rightarrow> datetime option \<Rightarrow> error + bool" where
  "check_date_condition now predicate val unit email_date =
     (case email_date of
        None \<Rightarrow> Inr False
      | Some d \<Rightarrow>
          (case py_int val of
             None \<Rightarrow> Inr False
           | Some v \<Rightarrow>
               (case (if unit = ''days'' then Inr (timedelta_days (now - d))
                      else if unit = ''months'' then Inr (timedelta_days (now - d) div 30)
                      else Inl (ValueError (''Unknown unit: '' @ unit))) of
                  Inl err \<Rightarrow> Inl err
                | Inr time_diff \<Rightarrow>
                    if predicate = ''less_than'' then Inr (time_diff < v)
                    else if predicate = ''greater_than'' then Inr (time_diff > v)
                    else Inl (ValueError (''Unknown date predicate: '' @ predicate)))))"

subsection \<open>\<^verbatim>\<open>_condition_matches\<close>\<close>

text \<open>Lines 141 to 151, the string predicates; \<open>field_value\<close> may be \<^verbatim>\<open>None\<close>.\<close>

definition check_string_condition :: "string \<Rightarrow> string \<Rightarrow> string option \<Rightarrow> error + bool" where
  "check_string_condition predicate val field_value =
     (if predicate = ''contains'' then
        (case field_value of
           None \<Rightarrow> Inl AttributeError
         | Some fv \<Rightarrow> Inr (sublist (lower val) (lower fv)))
      else if predicate = ''does_not_contain'' then
        (case field_value of
           None \<Rightarrow> Inl AttributeError
         | Some fv \<Rightarrow> Inr (\<not> sublist (lower val) (lower fv)))
      else if predicate = ''equals'' then
        (case field_value of
           None \<Rightarrow> Inl AttributeError
         | Some fv \<Rightarrow> Inr (lower val = lower fv))
      else if predicate = ''does_not_equal'' then
        (case field_value of
           None \<Rightarrow> Inl AttributeError
         | Some fv \<Rightarrow> Inr (lower val \<noteq> lower fv))
      else Inl (ValueError (''Unknown predicate: '' @ predicate)))"

text \<open>\<^verbatim>\<open>email.body_text or ""\<close>: \<^verbatim>\<open>None\<close> and the empty string both give the empty string.\<close>

definition body_or_empty :: "string option \<Rightarrow> string" where
  "body_or_empty b = (case b of None \<Rightarrow> [] | Some s \<Rightarrow> s)"

definition condition_matches :: "datetime \<Rightarrow> condition \<Rightarrow> email \<Rightarrow> error + bool" where
  "condition_matches now condition email =
     (let field = lower (cond_field condition);
          predicate = lower (cond_predicate condition);
          val = cond_value condition
      in
        if field = ''from'' then check_string_condition predicate val (from_address email)
        else if field = ''to'' then check_string_condition predicate val (to_address email)
        else if field = ''subject'' then check_string_condition predicate val (subject email)
        else if field = ''message'' then
          check_string_condition predicate val (Some (body_or_empty (body_text email)))
        else if field = ''received_date'' then
          check_date_condition now predicate val
            (case cond_unit condition of None \<Rightarrow> ''days'' | Some u \<Rightarrow> u)
            (received_date email)
        else Inl (ValueError (''Unknown field: '' @ field)))"

subsection \<open>\<^verbatim>\<open>_rule_applies\<close>\<close>

text \<open>
  \<^verbatim>\<open>all(...)\<close> and \<^verbatim>\<open>any(...)\<close> over a generator: the conditions are checked in order, the
  first one that decides ends the loop, and the conditions after it are never checked.
\<close>

fun all_conditions :: "(nat \<Rightarrow> datetime) \<Rightarrow> nat \<Rightarrow> condition list \<Rightarrow> email \<Rightarrow> error + bool" where
  "all_conditions nows k [] email = Inr True"
| "all_conditions nows k (c # cs) email =
     (case condition_matches (nows k) c email of
        Inl err \<Rightarrow> Inl err
      | Inr b \<Rightarrow> if b then all_conditions nows (Suc k) cs email else Inr False)"

fun any_conditions :: "(nat \<Rightarrow> datetime) \<Rightarrow> nat \<Rightarrow> condition list \<Rightarrow> email \<Rightarrow> error + bool" where
  "any_conditions nows k [] email = Inr False"
| "any_conditions nows k (c # cs) email =
     (case condition_matches (nows k) c email of
        Inl err \<Rightarrow> Inl err
      | Inr b \<Rightarrow> if b then Inr True else any_conditions nows (Suc k) cs email)"

definition rule_applies :: "(nat \<Rightarrow> datetime) \<Rightarrow> 'a rule \<Rightarrow> email \<Rightarrow> error + bool" where
  "rule_applies nows rule email =
     (let conditions = rule_conditions rule;
          predicate = rule_predicate rule
      in
        if predicate = ''all'' then all_conditions nows 0 conditions email
        else if predicate = ''any'' then any_conditions nows 0 conditions email
        else Inl (ValueError (''Unknown predicate: '' @ predicate)))"

subsection \<open>\<^verbatim>\<open>evaluate_emails\<close>\<close>

text \<open>
  Lines 50 to 54: the stored rows, in the order the query returns them, filtered by
  \<^verbatim>\<open>Email.id.in_(email_ids)\<close> only when \<^verbatim>\<open>email_ids\<close> is truthy (neither \<^verbatim>\<open>None\<close> nor
  empty).
\<close>

definition query_emails :: "email list \<Rightarrow> int list option \<Rightarrow> email list" where
  "query_emails stored email_ids =
     (case email_ids of
        None \<Rightarrow> stored
      | Some ids \<Rightarrow> if ids \<noteq> [] then filter (\<lambda>e. email_id e \<in> set ids) stored else stored)"

text \<open>Lines 74 to 81: the loop over the rules, \<open>acc\<close> being \<^verbatim>\<open>applicable_actions\<close>.\<close>

fun collect_actions ::
  "(nat \<Rightarrow> nat \<Rightarrow> datetime) \<Rightarrow> nat \<Rightarrow> 'a rule list \<Rightarrow> email \<Rightarrow> ('a \<times> string) list
     \<Rightarrow> error + ('a \<times> string) list" where
  "collect_actions nows j [] email acc = Inr acc"
| "collect_actions nows j (rule # rules) email acc =
     (case rule_applies (nows j) rule email of
        Inl err \<Rightarrow> Inl err
      | Inr b \<Rightarrow>
          collect_actions nows (Suc j) rules email
            (if b then acc @ map (\<lambda>action. (action, rule_id rule)) (rule_actions rule)
             else acc))"

text \<open>Lines 68 to 84: the loop over the messages, \<open>results\<close> being the dictionary.\<close>

fun process_emails ::
  "clock \<Rightarrow> nat \<Rightarrow> 'a rule list \<Rightarrow> email list \<Rightarrow> 'a action_plan \<Rightarrow> error + 'a action_plan" where
  "process_emails clk i rules [] results = Inr results"
| "process_emails clk i rules (email # emails) results =
     (case collect_actions (clk i) 0 rules email [] of
        Inl err \<Rightarrow> Inl err
      | Inr applicable_actions \<Rightarrow>
          process_emails clk (Suc i) rules emails
            (if applicable_actions \<noteq> []
             then AList.update (email_id email) applicable_actions results
             else results))"

definition evaluate_emails ::
  "clock \<Rightarrow> 'a rule list \<Rightarrow> email list \<Rightarrow> int list option \<Rightarrow> error + 'a action_plan" where
  "evaluate_emails clk rules stored email_ids =
     process_emails clk 0 rules (query_emails stored email_ids) []"


subsection \<open>The list of actions the specification describes\<close>

text \<open>
  For one message: the pairs \<open>(action, rule identifier)\<close> of every action of every rule that
  matched, in rule order and, within a rule, in the rule's action order. Rule \<open>j'\<close> is
  applied with the clock readings \<open>nows j'\<close> of its own condition checks; the positions start
  at \<open>j\<close>.
\<close>

definition matching_actions ::
  "(nat \<Rightarrow> nat \<Rightarrow> datetime) \<Rightarrow> nat \<Rightarrow> 'a rule list \<Rightarrow> email \<Rightarrow> ('a \<times> string) list" where
  "matching_actions nows j rules email =
     concat (map (\<lambda>(j', rule). map (\<lambda>action. (action, rule_id rule)) (rule_actions rule))
       (filter (\<lambda>(j', rule). rule_applies (nows j') rule email = Inr True)
         (enumerate j rules)))"

subsection \<open>Example data\<close>

text \<open>Messages, conditions and rules that the concrete evaluations below run on.\<close>

definition hello_email :: email where
  "hello_email = \<lparr>email_id = 1, from_address = Some ''News@Newsletter.example.com'',
     to_address = None, subject = Some ''Hello'', body_text = None, received_date = None\<rparr>"

definition newsletter_email :: email where
  "newsletter_email = \<lparr>email_id = 2, from_address = Some ''news@newsletter.example.com'',
     to_address = Some ''me@example.com'', subject = Some ''Weekly digest'',
     body_text = Some ''Unsubscribe here'', received_date = Some 0\<rparr>"

definition odd_date_condition :: condition where
  "odd_date_condition = \<lparr>cond_field = ''Received_Date'', cond_predicate = ''newer_than'',
     cond_value = ''seven'', cond_unit = Some ''weeks''\<rparr>"

definition to_condition :: condition where
  "to_condition = \<lparr>cond_field = ''To'', cond_predicate = ''Contains'', cond_value = ''me'',
     cond_unit = None\<rparr>"

definition message_condition :: condition where
  "message_condition = \<lparr>cond_field = ''message'', cond_predicate = ''equals'', cond_value = [],
     cond_unit = None\<rparr>"

definition hello_condition :: condition where
  "hello_condition = \<lparr>cond_field = ''subject'', cond_predicate = ''contains'',
     cond_value = ''hello'', cond_unit = None\<rparr>"

definition hello_rule :: "string rule" where
  "hello_rule = \<lparr>rule_id = ''R1'', rule_predicate = ''all'',
     rule_conditions = [hello_condition], rule_actions = [''mark_as_read'']\<rparr>"

definition catch_all_rule :: "string rule" where
  "catch_all_rule = \<lparr>rule_id = ''R2'', rule_predicate = ''all'', rule_conditions = [],
     rule_actions = [''move_message'', ''mark_as_unread'']\<rparr>"

definition no_action_rule :: "string rule" where
  "no_action_rule = \<lparr>rule_id = ''R3'', rule_predicate = ''all'', rule_conditions = [],
     rule_actions = []\<rparr>"

definition cc_condition :: condition where
  "cc_condition = \<lparr>cond_field = ''cc'', cond_predicate = ''contains'', cond_value = ''boss'',
     cond_unit = None\<rparr>"

definition zzz_condition :: condition where
  "zzz_condition = \<lparr>cond_field = ''subject'', cond_predicate = ''contains'',
     cond_value = ''zzz'', cond_unit = None\<rparr>"

definition skipped_field_rule :: "string rule" where
  "skipped_field_rule = \<lparr>rule_id = ''R4'', rule_predicate = ''all'',
     rule_conditions = [zzz_condition, cc_condition], rule_actions = [''mark_as_read'']\<rparr>"

definition odd_date_rule :: "string rule" where
  "odd_date_rule = \<lparr>rule_id = ''R5'', rule_predicate = ''any'',
     rule_conditions = [odd_date_condition], rule_actions = [''mark_as_read'']\<rparr>"

definition cc_rule :: "string rule" where
  "cc_rule = \<lparr>rule_id = ''R6'', rule_predicate = ''all'',
     rule_conditions = [hello_condition, cc_condition], rule_actions = [''mark_as_read'']\<rparr>"

definition some_rule :: "string rule" where
  "some_rule = \<lparr>rule_id = ''R7'', rule_predicate = ''some'',
     rule_conditions = [], rule_actions = [''mark_as_read'']\<rparr>"

definition starts_with_condition :: condition where
  "starts_with_condition = \<lparr>cond_field = ''Subject'', cond_predicate = ''starts_with'',
     cond_value = ''hello'', cond_unit = None\<rparr>"

definition weeks_condition :: condition where
  "weeks_condition = \<lparr>cond_field = ''received_date'', cond_predicate = ''less_than'',
     cond_value = ''7'', cond_unit = Some ''weeks''\<rparr>"

definition newer_than_condition :: condition where
  "newer_than_condition = \<lparr>cond_field = ''received_date'', cond_predicate = ''newer_than'',
     cond_value = ''7'', cond_unit = None\<rparr>"

definition day_old_email :: email where
  "day_old_email = \<lparr>email_id = 3, from_address = Some ''reports@example.com'',
     to_address = Some ''me@example.com'', subject = Some ''Report'', body_text = None,
     received_date = Some 0\<rparr>"

definition under_a_day_condition :: condition where
  "under_a_day_condition = \<lparr>cond_field = ''received_date'', cond_predicate = ''less_than'',
     cond_value = ''1'', cond_unit = None\<rparr>"

definition over_zero_days_condition :: condition where
  "over_zero_days_condition = \<lparr>cond_field = ''received_date'',
     cond_predicate = ''greater_than'', cond_value = ''0'', cond_unit = Some ''days''\<rparr>"

definition same_day_rule :: "string rule" where
  "same_day_rule = \<lparr>rule_id = ''R8'', rule_predicate = ''all'',
     rule_conditions = [under_a_day_condition, over_zero_days_condition],
     rule_actions = [''mark_as_read'']\<rparr>"

definition drifting_clock :: clock where
  "drifting_clock i j k = (if k = 0 then 82800000000 else 90000000000)"

definition same_day_clock :: clock where
  "same_day_clock i j k = (if k = 0 then 82800000000 else 86399999999)"




definition any_cc_rule :: "string rule" where
  "any_cc_rule = \<lparr>rule_id = ''R9'', rule_predicate = ''any'',
     rule_conditions = [zzz_condition, cc_condition], rule_actions = [''mark_as_read'']\<rparr>"

section \<open>Properties\<close>

subsection \<open>\<^verbatim>\<open>int(str)\<close> on some strings\<close>

lemma py_int_accepts:
  "py_int '' 5 '' = Some 5" "py_int ''+5'' = Some 5" "py_int ''-5'' = Some (- 5)"
  "py_int ''1_0'' = Some 10" "py_int ''007'' = Some 7"
  by code_simp+

lemma py_int_rejects:
  "py_int [] = None" "py_int ''-'' = None" "py_int ''+ 5'' = None" "py_int ''--5'' = None"
  "py_int ''_1'' = None" "py_int ''1_'' = None" "py_int ''1__0'' = None"
  "py_int ''1 0'' = None" "py_int ''0x10'' = None" "py_int ''5.0'' = None"
  "py_int ''seven'' = None"
  by code_simp+

subsection \<open>One equation per branch of \<^verbatim>\<open>_condition_matches\<close>\<close>

lemma check_date_None: "check_date_condition now predicate val unit None = Inr False"
  by (simp add: check_date_condition_def)

lemma check_date_unparsable:
  "py_int val = None \<Longrightarrow> check_date_condition now predicate val unit email_date = Inr False"
  by (simp add: check_date_condition_def split: option.split)

lemma check_date_not_attribute_error:
  "check_date_condition now p v u d \<noteq> Inl AttributeError"
  by (simp add: check_date_condition_def split: option.split)

lemma condition_matches_from:
  assumes "lower (cond_field c) = ''from''"
  shows "condition_matches now c email =
    check_string_condition (lower (cond_predicate c)) (cond_value c) (from_address email)"
  unfolding condition_matches_def Let_def assms by simp

lemma condition_matches_to:
  assumes "lower (cond_field c) = ''to''"
  shows "condition_matches now c email =
    check_string_condition (lower (cond_predicate c)) (cond_value c) (to_address email)"
  unfolding condition_matches_def Let_def assms by simp

lemma condition_matches_subject:
  assumes "lower (cond_field c) = ''subject''"
  shows "condition_matches now c email =
    check_string_condition (lower (cond_predicate c)) (cond_value c) (subject email)"
  unfolding condition_matches_def Let_def assms by simp

lemma condition_matches_message:
  assumes "lower (cond_field c) = ''message''"
  shows "condition_matches now c email =
    check_string_condition (lower (cond_predicate c)) (cond_value c)
      (Some (body_or_empty (body_text email)))"
  unfolding condition_matches_def Let_def assms by simp

lemma condition_matches_date:
  assumes "lower (cond_field c) = ''received_date''"
  shows "condition_matches now c email =
    check_date_condition now (lower (cond_predicate c)) (cond_value c)
      (case cond_unit c of None \<Rightarrow> ''days'' | Some u \<Rightarrow> u) (received_date email)"
  unfolding condition_matches_def Let_def assms by simp

lemma condition_matches_unknown_field:
  assumes "lower (cond_field c) \<noteq> ''from''" "lower (cond_field c) \<noteq> ''to''"
    "lower (cond_field c) \<noteq> ''subject''" "lower (cond_field c) \<noteq> ''message''"
    "lower (cond_field c) \<noteq> ''received_date''"
  shows "condition_matches now c email = Inl (ValueError (''Unknown field: '' @ lower (cond_field c)))"
  unfolding condition_matches_def Let_def using assms by simp

lemma check_string_Some:
  "check_string_condition p v (Some fv) =
     (if p = ''contains'' then Inr (sublist (lower v) (lower fv))
      else if p = ''does_not_contain'' then Inr (\<not> sublist (lower v) (lower fv))
      else if p = ''equals'' then Inr (lower v = lower fv)
      else if p = ''does_not_equal'' then Inr (lower v \<noteq> lower fv)
      else Inl (ValueError (''Unknown predicate: '' @ p)))"
  by (simp add: check_string_condition_def)

lemma check_string_None:
  "check_string_condition p v None =
     (if p = ''contains'' \<or> p = ''does_not_contain'' \<or> p = ''equals'' \<or> p = ''does_not_equal''
      then Inl AttributeError
      else Inl (ValueError (''Unknown predicate: '' @ p)))"
  by (simp add: check_string_condition_def)


subsection \<open>Lower-casing\<close>






subsection \<open>The loop over the rules\<close>

lemma matching_actions_Nil: "matching_actions nows j [] email = []"
  by (simp add: matching_actions_def)

lemma matching_actions_Cons:
  "matching_actions nows j (r # rs) email =
     (if rule_applies (nows j) r email = Inr True
      then map (\<lambda>action. (action, rule_id r)) (rule_actions r) else [])
     @ matching_actions nows (Suc j) rs email"
  by (simp add: matching_actions_def)

lemma collect_actions_Inr:
  "collect_actions nows j rules email acc = Inr res \<Longrightarrow>
     res = acc @ matching_actions nows j rules email"
proof (induction rules arbitrary: j acc)
  case Nil
  then show ?case by (simp add: matching_actions_Nil)
next
  case (Cons r rs)
  then obtain b where b: "rule_applies (nows j) r email = Inr b"
    by (auto split: sum.splits)
  with Cons.prems have "collect_actions nows (Suc j) rs email
      (if b then acc @ map (\<lambda>action. (action, rule_id r)) (rule_actions r) else acc) = Inr res"
    by simp
  from Cons.IH [OF this] b show ?case
    by (simp add: matching_actions_Cons)
qed

lemma matching_actions_nonempty:
  "matching_actions nows j rules email \<noteq> [] \<longleftrightarrow>
     (\<exists>m<length rules. rule_applies (nows (j + m)) (rules ! m) email = Inr True
        \<and> rule_actions (rules ! m) \<noteq> [])"
proof (induction rules arbitrary: j)
  case Nil
  then show ?case by (simp add: matching_actions_Nil)
next
  case (Cons r rs)
  have "(\<exists>m<length (r # rs). rule_applies (nows (j + m)) ((r # rs) ! m) email = Inr True
            \<and> rule_actions ((r # rs) ! m) \<noteq> [])
        \<longleftrightarrow> (rule_applies (nows j) r email = Inr True \<and> rule_actions r \<noteq> [])
          \<or> (\<exists>m<length rs. rule_applies (nows (Suc j + m)) (rs ! m) email = Inr True
            \<and> rule_actions (rs ! m) \<noteq> [])"
    by (auto simp: less_Suc_eq_0_disj)
  with Cons.IH [of "Suc j"] show ?case
    by (auto simp: matching_actions_Cons)
qed

subsection \<open>The loop over the messages\<close>

lemma update_set_subset: "set (AList.update k v al) \<subseteq> insert (k, v) (set al)"
  by (induction al) auto

lemma process_emails_Cons_Inr:
  assumes "process_emails clk i rules (e # es) results = Inr plan"
  obtains acts where "collect_actions (clk i) 0 rules e [] = Inr acts"
    and "process_emails clk (Suc i) rules es
           (if acts \<noteq> [] then AList.update (email_id e) acts results else results) = Inr plan"
  using assms by (auto split: sum.splits)

lemma process_emails_values_nonempty:
  "process_emails clk i rules emails results = Inr plan \<Longrightarrow>
   (\<And>k acts. (k, acts) \<in> set results \<Longrightarrow> acts \<noteq> []) \<Longrightarrow>
   (k, acts) \<in> set plan \<Longrightarrow> acts \<noteq> []"
proof (induction emails arbitrary: i results)
  case Nil
  then show ?case by simp
next
  case (Cons e es)
  from Cons.prems(1) obtain a where a: "collect_actions (clk i) 0 rules e [] = Inr a"
    and rest: "process_emails clk (Suc i) rules es
           (if a \<noteq> [] then AList.update (email_id e) a results else results) = Inr plan"
    by (rule process_emails_Cons_Inr)
  have "acts' \<noteq> []"
    if "(k', acts') \<in> set (if a \<noteq> [] then AList.update (email_id e) a results else results)"
    for k' acts'
    using that Cons.prems(2) update_set_subset [of "email_id e" a results]
    by (auto split: if_splits)
  from Cons.IH [OF rest this Cons.prems(3)] show ?case .
qed

lemma process_emails_keys:
  "process_emails clk i rules emails results = Inr plan \<Longrightarrow>
   fst ` set plan \<subseteq> fst ` set results \<union> email_id ` set emails"
proof (induction emails arbitrary: i results)
  case Nil
  then show ?case by simp
next
  case (Cons e es)
  from Cons.prems(1) obtain a where a: "collect_actions (clk i) 0 rules e [] = Inr a"
    and rest: "process_emails clk (Suc i) rules es
           (if a \<noteq> [] then AList.update (email_id e) a results else results) = Inr plan"
    by (rule process_emails_Cons_Inr)
  from Cons.IH [OF rest] show ?case
    by (auto simp: dom_update split: if_splits)
qed

lemma process_emails_distinct_keys:
  "process_emails clk i rules emails results = Inr plan \<Longrightarrow>
   distinct (map fst results) \<Longrightarrow> distinct (map fst plan)"
proof (induction emails arbitrary: i results)
  case Nil
  then show ?case by simp
next
  case (Cons e es)
  from Cons.prems(1) obtain a where a: "collect_actions (clk i) 0 rules e [] = Inr a"
    and rest: "process_emails clk (Suc i) rules es
           (if a \<noteq> [] then AList.update (email_id e) a results else results) = Inr plan"
    by (rule process_emails_Cons_Inr)
  from Cons.prems(2) have "distinct (map fst
      (if a \<noteq> [] then AList.update (email_id e) a results else results))"
    by (simp add: distinct_update)
  from Cons.IH [OF rest this] show ?case .
qed

lemma process_emails_lookup:
  "process_emails clk i rules emails results = Inr plan \<Longrightarrow>
   distinct (map email_id emails) \<Longrightarrow>
   (\<forall>m<length emails.
      map_of plan (email_id (emails ! m)) =
        (if matching_actions (clk (i + m)) 0 rules (emails ! m) = []
         then map_of results (email_id (emails ! m))
         else Some (matching_actions (clk (i + m)) 0 rules (emails ! m))))
   \<and> (\<forall>k. k \<notin> email_id ` set emails \<longrightarrow> map_of plan k = map_of results k)"
proof (induction emails arbitrary: i results)
  case Nil
  then show ?case by simp
next
  case (Cons e es)
  from Cons.prems(1) obtain a where a: "collect_actions (clk i) 0 rules e [] = Inr a"
    and rest: "process_emails clk (Suc i) rules es
           (if a \<noteq> [] then AList.update (email_id e) a results else results) = Inr plan"
    by (rule process_emails_Cons_Inr)
  let ?results' = "if a \<noteq> [] then AList.update (email_id e) a results else results"
  from collect_actions_Inr [OF a] have a_eq: "a = matching_actions (clk i) 0 rules e"
    by simp
  from Cons.prems(2) have d: "distinct (map email_id es)" and fresh: "email_id e \<notin> email_id ` set es"
    by auto
  from Cons.IH [OF rest d]
  have later: "\<And>m. m < length es \<Longrightarrow> map_of plan (email_id (es ! m)) =
        (if matching_actions (clk (Suc i + m)) 0 rules (es ! m) = []
         then map_of ?results' (email_id (es ! m))
         else Some (matching_actions (clk (Suc i + m)) 0 rules (es ! m)))"
    and other: "\<And>k. k \<notin> email_id ` set es \<Longrightarrow> map_of plan k = map_of ?results' k"
    by blast+
  have upd: "map_of ?results' k = (if k = email_id e \<and> a \<noteq> [] then Some a else map_of results k)"
    for k
    by (simp add: update_conv')
  have "map_of plan (email_id ((e # es) ! m)) =
        (if matching_actions (clk (i + m)) 0 rules ((e # es) ! m) = []
         then map_of results (email_id ((e # es) ! m))
         else Some (matching_actions (clk (i + m)) 0 rules ((e # es) ! m)))"
    if m: "m < length (e # es)" for m
  proof (cases m)
    case 0
    with other [OF fresh] upd [of "email_id e"] a_eq show ?thesis by simp
  next
    case (Suc m')
    with m have m': "m' < length es" by simp
    then have "email_id (es ! m') \<noteq> email_id e"
      using fresh by (metis image_eqI nth_mem)
    with later [OF m'] upd [of "email_id (es ! m')"] Suc show ?thesis by simp
  qed
  moreover have "map_of plan k = map_of results k" if "k \<notin> email_id ` set (e # es)" for k
    using that other [of k] upd [of k] by simp
  ultimately show ?case by blast
qed

lemma query_emails_distinct:
  "distinct (map email_id stored) \<Longrightarrow> distinct (map email_id (query_emails stored ids))"
  by (simp add: query_emails_def distinct_map_filter split: option.split)

lemma evaluate_emails_lookup:
  assumes "evaluate_emails clk rules stored ids = Inr plan"
    and "distinct (map email_id stored)"
    and "i < length (query_emails stored ids)"
  shows "map_of plan (email_id (query_emails stored ids ! i)) =
     (if matching_actions (clk i) 0 rules (query_emails stored ids ! i) = [] then None
      else Some (matching_actions (clk i) 0 rules (query_emails stored ids ! i)))"
proof -
  from assms(1) have p: "process_emails clk 0 rules (query_emails stored ids) [] = Inr plan"
    by (simp add: evaluate_emails_def)
  from process_emails_lookup [OF p query_emails_distinct [OF assms(2)]] assms(3)
  show ?thesis by simp
qed

subsection \<open>Errors propagate\<close>

lemma all_conditions_reaches_error:
  "k < length cs \<Longrightarrow> condition_matches (nows (n + k)) (cs ! k) email = Inl e \<Longrightarrow>
   (\<And>k'. k' < k \<Longrightarrow> condition_matches (nows (n + k')) (cs ! k') email = Inr True) \<Longrightarrow>
   all_conditions nows n cs email = Inl e"
proof (induction cs arbitrary: n k)
  case Nil
  then show ?case by simp
next
  case (Cons c cs)
  show ?case
  proof (cases k)
    case 0
    with Cons.prems(2) show ?thesis by simp
  next
    case (Suc m)
    with Cons.prems(3) [of 0] have head: "condition_matches (nows n) c email = Inr True"
      by simp
    have "all_conditions nows (Suc n) cs email = Inl e"
    proof (rule Cons.IH [of m])
      show "m < length cs" using Cons.prems(1) Suc by simp
      show "condition_matches (nows (Suc n + m)) (cs ! m) email = Inl e"
        using Cons.prems(2) Suc by simp
      show "condition_matches (nows (Suc n + k')) (cs ! k') email = Inr True" if "k' < m" for k'
        using Cons.prems(3) [of "Suc k'"] that Suc by simp
    qed
    with head show ?thesis by simp
  qed
qed

lemma any_conditions_reaches_error:
  "k < length cs \<Longrightarrow> condition_matches (nows (n + k)) (cs ! k) email = Inl e \<Longrightarrow>
   (\<And>k'. k' < k \<Longrightarrow> condition_matches (nows (n + k')) (cs ! k') email = Inr False) \<Longrightarrow>
   any_conditions nows n cs email = Inl e"
proof (induction cs arbitrary: n k)
  case Nil
  then show ?case by simp
next
  case (Cons c cs)
  show ?case
  proof (cases k)
    case 0
    with Cons.prems(2) show ?thesis by simp
  next
    case (Suc m)
    with Cons.prems(3) [of 0] have head: "condition_matches (nows n) c email = Inr False"
      by simp
    have "any_conditions nows (Suc n) cs email = Inl e"
    proof (rule Cons.IH [of m])
      show "m < length cs" using Cons.prems(1) Suc by simp
      show "condition_matches (nows (Suc n + m)) (cs ! m) email = Inl e"
        using Cons.prems(2) Suc by simp
      show "condition_matches (nows (Suc n + k')) (cs ! k') email = Inr False" if "k' < m" for k'
        using Cons.prems(3) [of "Suc k'"] that Suc by simp
    qed
    with head show ?thesis by simp
  qed
qed

lemma collect_actions_error:
  "m < length rules \<Longrightarrow> rule_applies (nows (j + m)) (rules ! m) email = Inl e \<Longrightarrow>
   \<exists>e'. collect_actions nows j rules email acc = Inl e'"
proof (induction rules arbitrary: j m acc)
  case Nil
  then show ?case by simp
next
  case (Cons r rs)
  show ?case
  proof (cases "rule_applies (nows j) r email")
    case (Inl err)
    then show ?thesis by simp
  next
    case (Inr b)
    with Cons.prems(2) obtain m' where m': "m = Suc m'"
      by (cases m) auto
    with Cons.prems have "m' < length rs"
      "rule_applies (nows (Suc j + m')) (rs ! m') email = Inl e"
      by simp_all
    from Cons.IH [OF this] Inr show ?thesis by simp
  qed
qed

lemma process_emails_error:
  "m < length emails \<Longrightarrow> collect_actions (clk (i + m)) 0 rules (emails ! m) [] = Inl e \<Longrightarrow>
   \<exists>e'. process_emails clk i rules emails results = Inl e'"
proof (induction emails arbitrary: i m results)
  case Nil
  then show ?case by simp
next
  case (Cons x xs)
  show ?case
  proof (cases "collect_actions (clk i) 0 rules x []")
    case (Inl err)
    then show ?thesis by simp
  next
    case (Inr acts)
    with Cons.prems(2) obtain m' where m': "m = Suc m'"
      by (cases m) auto
    with Cons.prems have "m' < length xs"
      "collect_actions (clk (Suc i + m')) 0 rules (xs ! m') [] = Inl e"
      by simp_all
    from Cons.IH [OF this] Inr show ?thesis by simp
  qed
qed

lemma evaluate_emails_error:
  assumes "i < length (query_emails stored ids)" and "j < length rules"
    and "rule_applies (clk i j) (rules ! j) (query_emails stored ids ! i) = Inl e"
  shows "\<exists>e'. evaluate_emails clk rules stored ids = Inl e'"
proof -
  from collect_actions_error [of j rules "clk i" 0 _ e "[]"] assms(2,3)
  obtain e1 where "collect_actions (clk i) 0 rules (query_emails stored ids ! i) [] = Inl e1"
    by auto
  from process_emails_error [of i _ clk 0, OF assms(1)] this
  show ?thesis by (simp add: evaluate_emails_def)
qed

lemma check_date_unknown_unit:
  "py_int val = Some v \<Longrightarrow> unit \<noteq> ''days'' \<Longrightarrow> unit \<noteq> ''months'' \<Longrightarrow>
   check_date_condition now p val unit (Some d) = Inl (ValueError (''Unknown unit: '' @ unit))"
  by (simp add: check_date_condition_def)

lemma check_date_unknown_predicate:
  "py_int val = Some v \<Longrightarrow> unit = ''days'' \<or> unit = ''months'' \<Longrightarrow>
   p \<noteq> ''less_than'' \<Longrightarrow> p \<noteq> ''greater_than'' \<Longrightarrow>
   check_date_condition now p val unit (Some d)
     = Inl (ValueError (''Unknown date predicate: '' @ p))"
  by (auto simp: check_date_condition_def)

lemma check_string_unknown_predicate:
  "p \<noteq> ''contains'' \<Longrightarrow> p \<noteq> ''does_not_contain'' \<Longrightarrow> p \<noteq> ''equals'' \<Longrightarrow>
   p \<noteq> ''does_not_equal'' \<Longrightarrow>
   check_string_condition p v fv = Inl (ValueError (''Unknown predicate: '' @ p))"
  by (simp add: check_string_condition_def)

subsection \<open>The clock matters through elapsed whole days only\<close>

lemma check_date_same_days:
  "timedelta_days (now - d) = timedelta_days (t - d) \<Longrightarrow>
   check_date_condition now p v u (Some d) = check_date_condition t p v u (Some d)"
  by (simp add: check_date_condition_def split: option.split)

lemma condition_matches_same_days:
  assumes "\<And>d. received_date email = Some d \<Longrightarrow>
     timedelta_days (now - d) = timedelta_days (t - d)"
  shows "condition_matches now c email = condition_matches t c email"
proof -
  consider "lower (cond_field c) = ''from''" | "lower (cond_field c) = ''to''"
    | "lower (cond_field c) = ''subject''" | "lower (cond_field c) = ''message''"
    | "lower (cond_field c) = ''received_date''"
    | "lower (cond_field c) \<noteq> ''from''" "lower (cond_field c) \<noteq> ''to''"
      "lower (cond_field c) \<noteq> ''subject''" "lower (cond_field c) \<noteq> ''message''"
      "lower (cond_field c) \<noteq> ''received_date''"
    by blast
  then show ?thesis
  proof cases
    case 1 then show ?thesis by (simp add: condition_matches_from)
  next
    case 2 then show ?thesis by (simp add: condition_matches_to)
  next
    case 3 then show ?thesis by (simp add: condition_matches_subject)
  next
    case 4 then show ?thesis by (simp add: condition_matches_message)
  next
    case 5
    show ?thesis
    proof (cases "received_date email")
      case None
      with 5 show ?thesis by (simp add: condition_matches_date check_date_None)
    next
      case (Some d)
      from assms [OF Some] have "check_date_condition now p v u (Some d)
          = check_date_condition t p v u (Some d)" for p v u
        by (rule check_date_same_days)
      with 5 Some show ?thesis by (simp add: condition_matches_date)
    qed
  next
    case 6 then show ?thesis by (simp add: condition_matches_unknown_field)
  qed
qed

lemma all_conditions_same_days:
  assumes "\<And>k d. received_date email = Some d \<Longrightarrow>
     timedelta_days (nows k - d) = timedelta_days (t - d)"
  shows "all_conditions nows n cs email = all_conditions (\<lambda>k. t) n cs email"
proof (induction cs arbitrary: n)
  case Nil
  show ?case by simp
next
  case (Cons c cs)
  have "condition_matches (nows n) c email = condition_matches t c email"
    using assms by (rule condition_matches_same_days)
  with Cons.IH [of "Suc n"] show ?case by (simp split: sum.split)
qed

lemma any_conditions_same_days:
  assumes "\<And>k d. received_date email = Some d \<Longrightarrow>
     timedelta_days (nows k - d) = timedelta_days (t - d)"
  shows "any_conditions nows n cs email = any_conditions (\<lambda>k. t) n cs email"
proof (induction cs arbitrary: n)
  case Nil
  show ?case by simp
next
  case (Cons c cs)
  have "condition_matches (nows n) c email = condition_matches t c email"
    using assms by (rule condition_matches_same_days)
  with Cons.IH [of "Suc n"] show ?case by (simp split: sum.split)
qed

lemma rule_applies_same_days:
  assumes "\<And>k d. received_date email = Some d \<Longrightarrow>
     timedelta_days (nows k - d) = timedelta_days (t - d)"
  shows "rule_applies nows r email = rule_applies (\<lambda>k. t) r email"
  using all_conditions_same_days [OF assms] any_conditions_same_days [OF assms]
  by (simp add: rule_applies_def Let_def)

lemma collect_actions_same_days:
  assumes "\<And>j k d. received_date email = Some d \<Longrightarrow>
     timedelta_days (nows j k - d) = timedelta_days (t - d)"
  shows "collect_actions nows j rules email acc = collect_actions (\<lambda>j k. t) j rules email acc"
proof (induction rules arbitrary: j acc)
  case Nil
  show ?case by simp
next
  case (Cons r rs)
  have "rule_applies (nows j) r email = rule_applies (\<lambda>k. t) r email"
    using assms by (rule rule_applies_same_days)
  with Cons.IH show ?case by (simp split: sum.split)
qed

lemma process_emails_same_days:
  assumes "\<And>e i j k d. e \<in> set emails \<Longrightarrow> received_date e = Some d \<Longrightarrow>
     timedelta_days (clk i j k - d) = timedelta_days (t - d)"
  shows "process_emails clk i rules emails results
    = process_emails (fixed_clock t) i rules emails results"
  using assms
proof (induction emails arbitrary: i results)
  case Nil
  show ?case by simp
next
  case (Cons x xs)
  have "timedelta_days (clk i j k - d) = timedelta_days (t - d)"
    if "received_date x = Some d" for j k d
    using Cons.prems [OF _ that] by simp
  then have "collect_actions (clk i) 0 rules x [] = collect_actions (\<lambda>j k. t) 0 rules x []"
    by (rule collect_actions_same_days)
  moreover have "fixed_clock t i = (\<lambda>j k. t)"
    by (simp add: fixed_clock_def)
  moreover have "process_emails clk (Suc i) rules xs res
      = process_emails (fixed_clock t) (Suc i) rules xs res" for res
  proof (rule Cons.IH)
    show "timedelta_days (clk i j k - d) = timedelta_days (t - d)"
      if "e \<in> set xs" "received_date e = Some d" for e i j k d
      using Cons.prems [OF _ that(2)] that(1) by simp
  qed
  ultimately show ?case by (simp split: sum.split)
qed

lemma set_query_emails: "set (query_emails stored ids) \<subseteq> set stored"
  by (auto simp: query_emails_def split: option.split)

section \<open>The claims\<close>

text \<open>
  C1, as amended. The instant \<open>now\<close> is read from the clock by every date-condition check
  that gets past its two guards, so the date conditions of one call can be compared with
  different instants. The result of one \<^verbatim>\<open>evaluate_emails\<close> call is the result of an
  evaluation at the single instant \<open>t\<close> whenever every reading of the clock during the call
  gives each stored message's \<^verbatim>\<open>received_date\<close> the same number of elapsed whole days as
  \<open>t\<close> does; in particular when the clock does not advance during the call.
\<close>

theorem clock_read_at_every_check:
  assumes "\<forall>e\<in>set stored. \<forall>d. received_date e = Some d \<longrightarrow>
     (\<forall>i j k. timedelta_days (clk i j k - d) = timedelta_days (t - d))"
  shows "evaluate_emails clk rules stored ids = evaluate_emails (fixed_clock t) rules stored ids"
proof -
  have "timedelta_days (clk i j k - d) = timedelta_days (t - d)"
    if "e \<in> set (query_emails stored ids)" "received_date e = Some d" for e i j k d
    using that assms set_query_emails by blast
  then show ?thesis
    unfolding evaluate_emails_def by (rule process_emails_same_days)
qed

theorem clock_read_at_every_check_witness:
  "evaluate_emails same_day_clock [same_day_rule] [day_old_email] None
     = evaluate_emails (fixed_clock 82800000000) [same_day_rule] [day_old_email] None"
proof -
  have "\<forall>e\<in>set [day_old_email]. \<forall>d. received_date e = Some d \<longrightarrow>
     (\<forall>i j k. timedelta_days (same_day_clock i j k - d) = timedelta_days (82800000000 - d))"
    by (simp add: day_old_email_def same_day_clock_def timedelta_days_def)
  then show ?thesis by (rule clock_read_at_every_check)
qed

text \<open>
  C1 as stated fails: with a clock that passes from 23 hours to 25 hours after the message
  was received, between the two condition checks of one rule, the rule \<open>less than 1 day and
  more than 0 days\<close> matches, although it matches at neither of the two instants.
\<close>

theorem clock_read_at_every_check_counterexample:
  "evaluate_emails drifting_clock [same_day_rule] [day_old_email] None
     = Inr [(3, [(''mark_as_read'', ''R8'')])]
   \<and> evaluate_emails (fixed_clock 82800000000) [same_day_rule] [day_old_email] None = Inr []
   \<and> evaluate_emails (fixed_clock 90000000000) [same_day_rule] [day_old_email] None = Inr []"
  by code_simp

text \<open>
  C2, as amended. The identifiers are the primary key of the table, so no two stored messages
  share one. When \<^verbatim>\<open>evaluate_emails\<close> returns, the identifier of an evaluated message is a
  key of the plan if and only if at least one rule that matched the message has at least one
  action; no entry of the plan has an empty list, and every key is the identifier of an
  evaluated message.
\<close>

theorem plan_keys:
  assumes "evaluate_emails clk rules stored ids = Inr plan"
    and "distinct (map email_id stored)"
    and "i < length (query_emails stored ids)"
  shows "(email_id (query_emails stored ids ! i) \<in> fst ` set plan \<longleftrightarrow>
           (\<exists>j<length rules.
              rule_applies (clk i j) (rules ! j) (query_emails stored ids ! i) = Inr True
              \<and> rule_actions (rules ! j) \<noteq> []))
       \<and> (\<forall>k acts. (k, acts) \<in> set plan \<longrightarrow> acts \<noteq> [])
       \<and> fst ` set plan \<subseteq> email_id ` set (query_emails stored ids)"
proof -
  let ?e = "query_emails stored ids ! i"
  from assms(1) have p: "process_emails clk 0 rules (query_emails stored ids) [] = Inr plan"
    by (simp add: evaluate_emails_def)
  have "email_id ?e \<in> fst ` set plan \<longleftrightarrow> map_of plan (email_id ?e) \<noteq> None"
    by (simp add: map_of_eq_None_iff)
  also have "\<dots> \<longleftrightarrow> matching_actions (clk i) 0 rules ?e \<noteq> []"
    by (simp add: evaluate_emails_lookup [OF assms])
  also have "\<dots> \<longleftrightarrow> (\<exists>j<length rules. rule_applies (clk i j) (rules ! j) ?e = Inr True
              \<and> rule_actions (rules ! j) \<noteq> [])"
    by (simp add: matching_actions_nonempty)
  finally have keys: "email_id ?e \<in> fst ` set plan \<longleftrightarrow>
      (\<exists>j<length rules. rule_applies (clk i j) (rules ! j) ?e = Inr True
              \<and> rule_actions (rules ! j) \<noteq> [])" .
  have vals: "acts \<noteq> []" if "(k, acts) \<in> set plan" for k acts
    using process_emails_values_nonempty [OF p _ that] by simp
  from process_emails_keys [OF p] keys vals show ?thesis by simp
qed

theorem plan_keys_witness:
  "evaluate_emails (fixed_clock 0) [hello_rule, no_action_rule] [hello_email, newsletter_email]
      None = Inr [(1, [(''mark_as_read'', ''R1'')])]
   \<and> (\<exists>j<length [hello_rule, no_action_rule].
         rule_applies (fixed_clock 0 0 j) ([hello_rule, no_action_rule] ! j) hello_email = Inr True
         \<and> rule_actions ([hello_rule, no_action_rule] ! j) \<noteq> [])
   \<and> \<not> (\<exists>j<length [hello_rule, no_action_rule].
         rule_applies (fixed_clock 0 1 j) ([hello_rule, no_action_rule] ! j) newsletter_email
           = Inr True
         \<and> rule_actions ([hello_rule, no_action_rule] ! j) \<noteq> [])"
proof -
  let ?rules = "[hello_rule, no_action_rule]"
  let ?stored = "[hello_email, newsletter_email]"
  let ?plan = "[(1::int, [(''mark_as_read'', ''R1'')])]"
  have e: "evaluate_emails (fixed_clock 0) ?rules ?stored None = Inr ?plan"
    by code_simp
  have d: "distinct (map email_id ?stored)"
    by (simp add: hello_email_def newsletter_email_def)
  have q: "query_emails ?stored None = ?stored"
    by (simp add: query_emails_def)
  have ids: "email_id hello_email = 1" "email_id newsletter_email = 2"
    by (simp_all add: hello_email_def newsletter_email_def)
  from plan_keys [OF e d, of 0] plan_keys [OF e d, of 1] e show ?thesis
    unfolding q by (simp add: ids)
qed

text \<open>
  C2 as stated fails: a rule that matches but has no action leaves the message out of the
  plan.
\<close>

theorem plan_keys_counterexample:
  "rule_applies (fixed_clock 0 0 0) no_action_rule hello_email = Inr True
   \<and> evaluate_emails (fixed_clock 0) [no_action_rule] [hello_email] None = Inr []"
  by code_simp

text \<open>
  C3, as amended. An unrecognised value raises \<^verbatim>\<open>ValueError\<close> when the evaluation reaches
  it. A combinator other than \<^verbatim>\<open>all\<close> and \<^verbatim>\<open>any\<close> raises whenever the rule is applied to
  a message. A field that, lower-cased, is none of the five, and a predicate that,
  lower-cased, is none of the four string predicates on a string field, raise whenever the
  condition is checked. A unit other than \<^verbatim>\<open>days\<close> and \<^verbatim>\<open>months\<close>, and a date predicate
  that, lower-cased, is neither \<^verbatim>\<open>less_than\<close> nor \<^verbatim>\<open>greater_than\<close>, raise whenever the date
  condition is checked on a message that has a \<^verbatim>\<open>received_date\<close>, with a value that parses
  as an integer. A condition is checked when every condition before it in the rule matched
  (\<^verbatim>\<open>all\<close>) or failed to match (\<^verbatim>\<open>any\<close>), and the error of a checked condition is the
  outcome of applying the rule. An error raised while a rule is applied to an evaluated
  message makes \<^verbatim>\<open>evaluate_emails\<close> end in an error: no plan is returned.
\<close>

theorem unknown_values_raise_when_reached:
  "(rule_predicate r \<noteq> ''all'' \<and> rule_predicate r \<noteq> ''any'' \<longrightarrow>
      rule_applies nows r email = Inl (ValueError (''Unknown predicate: '' @ rule_predicate r)))
   \<and> (lower (cond_field c) \<notin> {''from'', ''to'', ''subject'', ''message'', ''received_date''} \<longrightarrow>
      condition_matches now c email
        = Inl (ValueError (''Unknown field: '' @ lower (cond_field c))))
   \<and> (lower (cond_field c) \<in> {''from'', ''to'', ''subject'', ''message''}
        \<and> lower (cond_predicate c)
            \<notin> {''contains'', ''does_not_contain'', ''equals'', ''does_not_equal''} \<longrightarrow>
      condition_matches now c email
        = Inl (ValueError (''Unknown predicate: '' @ lower (cond_predicate c))))
   \<and> (lower (cond_field c) = ''received_date'' \<and> received_date email = Some d
        \<and> py_int (cond_value c) = Some v
        \<and> cond_unit c = Some u \<and> u \<notin> {''days'', ''months''} \<longrightarrow>
      condition_matches now c email = Inl (ValueError (''Unknown unit: '' @ u)))
   \<and> (lower (cond_field c) = ''received_date'' \<and> received_date email = Some d
        \<and> py_int (cond_value c) = Some v
        \<and> cond_unit c \<in> {None, Some ''days'', Some ''months''}
        \<and> lower (cond_predicate c) \<notin> {''less_than'', ''greater_than''} \<longrightarrow>
      condition_matches now c email
        = Inl (ValueError (''Unknown date predicate: '' @ lower (cond_predicate c))))
   \<and> (k < length cs \<and> condition_matches (nows k) (cs ! k) email = Inl e
        \<and> (\<forall>k'<k. condition_matches (nows k') (cs ! k') email = Inr True) \<longrightarrow>
      all_conditions nows 0 cs email = Inl e)
   \<and> (k < length cs \<and> condition_matches (nows k) (cs ! k) email = Inl e
        \<and> (\<forall>k'<k. condition_matches (nows k') (cs ! k') email = Inr False) \<longrightarrow>
      any_conditions nows 0 cs email = Inl e)
   \<and> (rule_predicate r = ''all'' \<and> k < length (rule_conditions r)
        \<and> condition_matches (nows k) (rule_conditions r ! k) email = Inl e
        \<and> (\<forall>k'<k. condition_matches (nows k') (rule_conditions r ! k') email = Inr True) \<longrightarrow>
      rule_applies nows r email = Inl e)
   \<and> (rule_predicate r = ''any'' \<and> k < length (rule_conditions r)
        \<and> condition_matches (nows k) (rule_conditions r ! k) email = Inl e
        \<and> (\<forall>k'<k. condition_matches (nows k') (rule_conditions r ! k') email = Inr False) \<longrightarrow>
      rule_applies nows r email = Inl e)
   \<and> (i < length (query_emails stored ids) \<and> j < length rules
        \<and> rule_applies (clk i j) (rules ! j) (query_emails stored ids ! i) = Inl e \<longrightarrow>
      (\<exists>e'. evaluate_emails clk rules stored ids = Inl e'))"
proof (intro conjI impI)
  assume "rule_predicate r \<noteq> ''all'' \<and> rule_predicate r \<noteq> ''any''"
  then show "rule_applies nows r email
      = Inl (ValueError (''Unknown predicate: '' @ rule_predicate r))"
    by (simp add: rule_applies_def)
next
  assume "lower (cond_field c) \<notin> {''from'', ''to'', ''subject'', ''message'', ''received_date''}"
  then show "condition_matches now c email
      = Inl (ValueError (''Unknown field: '' @ lower (cond_field c)))"
    by (intro condition_matches_unknown_field) auto
next
  assume a: "lower (cond_field c) \<in> {''from'', ''to'', ''subject'', ''message''}
        \<and> lower (cond_predicate c)
            \<notin> {''contains'', ''does_not_contain'', ''equals'', ''does_not_equal''}"
  then have s: "check_string_condition (lower (cond_predicate c)) (cond_value c) fv
      = Inl (ValueError (''Unknown predicate: '' @ lower (cond_predicate c)))" for fv
    by (intro check_string_unknown_predicate) auto
  from a consider "lower (cond_field c) = ''from''" | "lower (cond_field c) = ''to''"
    | "lower (cond_field c) = ''subject''" | "lower (cond_field c) = ''message''"
    by blast
  then show "condition_matches now c email
      = Inl (ValueError (''Unknown predicate: '' @ lower (cond_predicate c)))"
  proof cases
    case 1 then show ?thesis by (simp only: condition_matches_from s)
  next
    case 2 then show ?thesis by (simp only: condition_matches_to s)
  next
    case 3 then show ?thesis by (simp only: condition_matches_subject s)
  next
    case 4 then show ?thesis by (simp only: condition_matches_message s)
  qed
next
  assume "lower (cond_field c) = ''received_date'' \<and> received_date email = Some d
        \<and> py_int (cond_value c) = Some v
        \<and> cond_unit c = Some u \<and> u \<notin> {''days'', ''months''}"
  then show "condition_matches now c email = Inl (ValueError (''Unknown unit: '' @ u))"
    by (simp add: condition_matches_date check_date_unknown_unit)
next
  assume a: "lower (cond_field c) = ''received_date'' \<and> received_date email = Some d
        \<and> py_int (cond_value c) = Some v
        \<and> cond_unit c \<in> {None, Some ''days'', Some ''months''}
        \<and> lower (cond_predicate c) \<notin> {''less_than'', ''greater_than''}"
  then have "(case cond_unit c of None \<Rightarrow> ''days'' | Some u \<Rightarrow> u) = ''days''
      \<or> (case cond_unit c of None \<Rightarrow> ''days'' | Some u \<Rightarrow> u) = ''months''"
    by auto
  with a show "condition_matches now c email
      = Inl (ValueError (''Unknown date predicate: '' @ lower (cond_predicate c)))"
    by (simp add: condition_matches_date check_date_unknown_predicate)
next
  assume "k < length cs \<and> condition_matches (nows k) (cs ! k) email = Inl e
        \<and> (\<forall>k'<k. condition_matches (nows k') (cs ! k') email = Inr True)"
  then show "all_conditions nows 0 cs email = Inl e"
    using all_conditions_reaches_error [of k cs nows 0 email e] by simp
next
  assume "k < length cs \<and> condition_matches (nows k) (cs ! k) email = Inl e
        \<and> (\<forall>k'<k. condition_matches (nows k') (cs ! k') email = Inr False)"
  then show "any_conditions nows 0 cs email = Inl e"
    using any_conditions_reaches_error [of k cs nows 0 email e] by simp
next
  assume "rule_predicate r = ''all'' \<and> k < length (rule_conditions r)
        \<and> condition_matches (nows k) (rule_conditions r ! k) email = Inl e
        \<and> (\<forall>k'<k. condition_matches (nows k') (rule_conditions r ! k') email = Inr True)"
  then show "rule_applies nows r email = Inl e"
    using all_conditions_reaches_error [of k "rule_conditions r" nows 0 email e]
    by (simp add: rule_applies_def)
next
  assume "rule_predicate r = ''any'' \<and> k < length (rule_conditions r)
        \<and> condition_matches (nows k) (rule_conditions r ! k) email = Inl e
        \<and> (\<forall>k'<k. condition_matches (nows k') (rule_conditions r ! k') email = Inr False)"
  then show "rule_applies nows r email = Inl e"
    using any_conditions_reaches_error [of k "rule_conditions r" nows 0 email e]
    by (simp add: rule_applies_def)
next
  assume "i < length (query_emails stored ids) \<and> j < length rules
        \<and> rule_applies (clk i j) (rules ! j) (query_emails stored ids ! i) = Inl e"
  then show "\<exists>e'. evaluate_emails clk rules stored ids = Inl e'"
    using evaluate_emails_error by blast
qed

theorem unknown_values_raise_when_reached_witness:
  "rule_applies (fixed_clock 0 0 0) some_rule hello_email
     = Inl (ValueError ''Unknown predicate: some'')
   \<and> condition_matches 0 cc_condition hello_email = Inl (ValueError ''Unknown field: cc'')
   \<and> condition_matches 0 starts_with_condition hello_email
     = Inl (ValueError ''Unknown predicate: starts_with'')
   \<and> condition_matches 0 weeks_condition newsletter_email
     = Inl (ValueError ''Unknown unit: weeks'')
   \<and> condition_matches 0 newer_than_condition newsletter_email
     = Inl (ValueError ''Unknown date predicate: newer_than'')
   \<and> all_conditions (fixed_clock 0 0 0) 0 [hello_condition, cc_condition] hello_email
     = Inl (ValueError ''Unknown field: cc'')
   \<and> any_conditions (fixed_clock 0 0 0) 0 [zzz_condition, cc_condition] hello_email
     = Inl (ValueError ''Unknown field: cc'')
   \<and> rule_applies (fixed_clock 0 0 1) cc_rule hello_email = Inl (ValueError ''Unknown field: cc'')
   \<and> rule_applies (fixed_clock 0 0 0) any_cc_rule hello_email
     = Inl (ValueError ''Unknown field: cc'')
   \<and> (\<exists>e'. evaluate_emails (fixed_clock 0) [hello_rule, cc_rule] [hello_email] None = Inl e')
   \<and> (\<exists>e'. evaluate_emails (fixed_clock 0) [any_cc_rule] [hello_email] None = Inl e')
   \<and> (\<exists>e'. evaluate_emails (fixed_clock 0) [some_rule] [hello_email] None = Inl e')"
proof -
  let ?nows = "fixed_clock 0 0 0"
  let ?nows1 = "fixed_clock 0 0 1"
  let ?cc = "Inl (ValueError ''Unknown field: cc'') :: error + bool"
  have h1: "rule_predicate some_rule \<noteq> ''all'' \<and> rule_predicate some_rule \<noteq> ''any''"
    by (simp add: some_rule_def)
  have h2: "lower (cond_field cc_condition)
      \<notin> {''from'', ''to'', ''subject'', ''message'', ''received_date''}"
    by code_simp
  have h3: "lower (cond_field starts_with_condition) \<in> {''from'', ''to'', ''subject'', ''message''}
      \<and> lower (cond_predicate starts_with_condition)
          \<notin> {''contains'', ''does_not_contain'', ''equals'', ''does_not_equal''}"
    by code_simp
  have h4: "lower (cond_field weeks_condition) = ''received_date''
      \<and> received_date newsletter_email = Some 0
      \<and> py_int (cond_value weeks_condition) = Some 7
      \<and> cond_unit weeks_condition = Some ''weeks'' \<and> ''weeks'' \<notin> {''days'', ''months''}"
    by code_simp
  have h5: "lower (cond_field newer_than_condition) = ''received_date''
      \<and> received_date newsletter_email = Some 0
      \<and> py_int (cond_value newer_than_condition) = Some 7
      \<and> cond_unit newer_than_condition \<in> {None, Some ''days'', Some ''months''}
      \<and> lower (cond_predicate newer_than_condition) \<notin> {''less_than'', ''greater_than''}"
    by code_simp
  have hello: "condition_matches 0 hello_condition hello_email = Inr True" by code_simp
  have zzz: "condition_matches 0 zzz_condition hello_email = Inr False" by code_simp
  have clock: "fixed_clock 0 i j k = 0" for i j k by (simp add: fixed_clock_def)
  have q: "query_emails [hello_email] None = [hello_email]"
    by (simp add: query_emails_def)
  have c1: "rule_applies ?nows some_rule hello_email
      = Inl (ValueError (''Unknown predicate: '' @ rule_predicate some_rule))"
    by (rule mp [OF unknown_values_raise_when_reached [where r = some_rule and nows = ?nows
        and email = hello_email, THEN conjunct1] h1])
  have c2: "condition_matches 0 cc_condition hello_email
      = Inl (ValueError (''Unknown field: '' @ lower (cond_field cc_condition)))"
    by (rule mp [OF unknown_values_raise_when_reached [where c = cc_condition and now = 0
        and email = hello_email, THEN conjunct2, THEN conjunct1] h2])
  have c3: "condition_matches 0 starts_with_condition hello_email
      = Inl (ValueError (''Unknown predicate: '' @ lower (cond_predicate starts_with_condition)))"
    by (rule mp [OF unknown_values_raise_when_reached [where c = starts_with_condition
        and now = 0 and email = hello_email, THEN conjunct2, THEN conjunct2, THEN conjunct1] h3])
  have c4: "condition_matches 0 weeks_condition newsletter_email
      = Inl (ValueError (''Unknown unit: '' @ ''weeks''))"
    by (rule mp [OF unknown_values_raise_when_reached [where c = weeks_condition and now = 0
        and email = newsletter_email and d = 0 and v = 7 and u = "''weeks''",
        THEN conjunct2, THEN conjunct2, THEN conjunct2, THEN conjunct1] h4])
  have c5: "condition_matches 0 newer_than_condition newsletter_email
      = Inl (ValueError (''Unknown date predicate: ''
          @ lower (cond_predicate newer_than_condition)))"
    by (rule mp [OF unknown_values_raise_when_reached [where c = newer_than_condition
        and now = 0 and email = newsletter_email and d = 0 and v = 7,
        THEN conjunct2, THEN conjunct2, THEN conjunct2, THEN conjunct2, THEN conjunct1] h5])
  have l2: "lower (cond_field cc_condition) = ''cc''" by code_simp
  have cc: "condition_matches 0 cc_condition hello_email = ?cc"
    using c2 unfolding l2 by simp
  have h6: "1 < length [hello_condition, cc_condition]
      \<and> condition_matches (?nows 1) ([hello_condition, cc_condition] ! 1) hello_email = ?cc
      \<and> (\<forall>k'<1. condition_matches (?nows k') ([hello_condition, cc_condition] ! k') hello_email
            = Inr True)"
    by (simp add: clock hello cc)
  have h7: "1 < length [zzz_condition, cc_condition]
      \<and> condition_matches (?nows 1) ([zzz_condition, cc_condition] ! 1) hello_email = ?cc
      \<and> (\<forall>k'<1. condition_matches (?nows k') ([zzz_condition, cc_condition] ! k') hello_email
            = Inr False)"
    by (simp add: clock zzz cc)
  have h8: "rule_predicate cc_rule = ''all'' \<and> 1 < length (rule_conditions cc_rule)
      \<and> condition_matches (?nows1 1) (rule_conditions cc_rule ! 1) hello_email = ?cc
      \<and> (\<forall>k'<1. condition_matches (?nows1 k') (rule_conditions cc_rule ! k') hello_email
            = Inr True)"
    by (simp add: cc_rule_def clock hello cc)
  have h9: "rule_predicate any_cc_rule = ''any'' \<and> 1 < length (rule_conditions any_cc_rule)
      \<and> condition_matches (?nows 1) (rule_conditions any_cc_rule ! 1) hello_email = ?cc
      \<and> (\<forall>k'<1. condition_matches (?nows k') (rule_conditions any_cc_rule ! k') hello_email
            = Inr False)"
    by (simp add: any_cc_rule_def clock zzz cc)
  have c6: "all_conditions ?nows 0 [hello_condition, cc_condition] hello_email = ?cc"
    by (rule mp [OF unknown_values_raise_when_reached [where k = 1
        and cs = "[hello_condition, cc_condition]" and nows = ?nows and email = hello_email
        and e = "ValueError ''Unknown field: cc''",
        THEN conjunct2, THEN conjunct2, THEN conjunct2, THEN conjunct2, THEN conjunct2, THEN conjunct1] h6])
  have c7: "any_conditions ?nows 0 [zzz_condition, cc_condition] hello_email = ?cc"
    by (rule mp [OF unknown_values_raise_when_reached [where k = 1
        and cs = "[zzz_condition, cc_condition]" and nows = ?nows and email = hello_email
        and e = "ValueError ''Unknown field: cc''",
        THEN conjunct2, THEN conjunct2, THEN conjunct2, THEN conjunct2, THEN conjunct2, THEN conjunct2, THEN conjunct1] h7])
  have c8: "rule_applies ?nows1 cc_rule hello_email = ?cc"
    by (rule mp [OF unknown_values_raise_when_reached [where k = 1 and r = cc_rule
        and nows = ?nows1 and email = hello_email and e = "ValueError ''Unknown field: cc''",
        THEN conjunct2, THEN conjunct2, THEN conjunct2, THEN conjunct2, THEN conjunct2, THEN conjunct2, THEN conjunct2, THEN conjunct1] h8])
  have c9: "rule_applies ?nows any_cc_rule hello_email = ?cc"
    by (rule mp [OF unknown_values_raise_when_reached [where k = 1 and r = any_cc_rule
        and nows = ?nows and email = hello_email and e = "ValueError ''Unknown field: cc''",
        THEN conjunct2, THEN conjunct2, THEN conjunct2, THEN conjunct2, THEN conjunct2, THEN conjunct2, THEN conjunct2, THEN conjunct2, THEN conjunct1] h9])
  have l1: "rule_predicate some_rule = ''some''" by (simp add: some_rule_def)
  have l3: "lower (cond_predicate starts_with_condition) = ''starts_with''" by code_simp
  have l5: "lower (cond_predicate newer_than_condition) = ''newer_than''" by code_simp
  have h10: "0 < length (query_emails [hello_email] None) \<and> 1 < length [hello_rule, cc_rule]
      \<and> rule_applies (fixed_clock 0 0 1) ([hello_rule, cc_rule] ! 1)
            (query_emails [hello_email] None ! 0) = ?cc"
    using c8 by (simp add: q)
  have h11: "0 < length (query_emails [hello_email] None) \<and> 0 < length [any_cc_rule]
      \<and> rule_applies (fixed_clock 0 0 0) ([any_cc_rule] ! 0)
            (query_emails [hello_email] None ! 0) = ?cc"
    using c9 by (simp add: q)
  have h12: "0 < length (query_emails [hello_email] None) \<and> 0 < length [some_rule]
      \<and> rule_applies (fixed_clock 0 0 0) ([some_rule] ! 0)
            (query_emails [hello_email] None ! 0)
          = Inl (ValueError (''Unknown predicate: '' @ rule_predicate some_rule))"
    using c1 by (simp add: q)
  have c10: "\<exists>e'. evaluate_emails (fixed_clock 0) [hello_rule, cc_rule] [hello_email] None = Inl e'"
    by (rule mp [OF unknown_values_raise_when_reached [where i = 0 and j = 1
        and stored = "[hello_email]" and ids = None and rules = "[hello_rule, cc_rule]"
        and clk = "fixed_clock 0" and e = "ValueError ''Unknown field: cc''",
        THEN conjunct2, THEN conjunct2, THEN conjunct2, THEN conjunct2, THEN conjunct2, THEN conjunct2, THEN conjunct2, THEN conjunct2, THEN conjunct2] h10])
  have c11: "\<exists>e'. evaluate_emails (fixed_clock 0) [any_cc_rule] [hello_email] None = Inl e'"
    by (rule mp [OF unknown_values_raise_when_reached [where i = 0 and j = 0
        and stored = "[hello_email]" and ids = None and rules = "[any_cc_rule]"
        and clk = "fixed_clock 0" and e = "ValueError ''Unknown field: cc''",
        THEN conjunct2, THEN conjunct2, THEN conjunct2, THEN conjunct2, THEN conjunct2, THEN conjunct2, THEN conjunct2, THEN conjunct2, THEN conjunct2] h11])
  have c12: "\<exists>e'. evaluate_emails (fixed_clock 0) [some_rule] [hello_email] None = Inl e'"
    by (rule mp [OF unknown_values_raise_when_reached [where i = 0 and j = 0
        and stored = "[hello_email]" and ids = None and rules = "[some_rule]"
        and clk = "fixed_clock 0"
        and e = "ValueError (''Unknown predicate: '' @ rule_predicate some_rule)",
        THEN conjunct2, THEN conjunct2, THEN conjunct2, THEN conjunct2, THEN conjunct2, THEN conjunct2, THEN conjunct2, THEN conjunct2, THEN conjunct2] h12])
  from c1 cc c3 c4 c5 c6 c7 c8 c9 c10 c11 c12 show ?thesis
    unfolding l1 l3 l5 by simp
qed

text \<open>
  C3 as stated fails: a condition on the unknown field \<open>cc\<close> behind a condition that does
  not match is never checked, a date condition with an unknown unit and an unknown predicate
  is a silent non-match on a message without \<^verbatim>\<open>received_date\<close>, and an unknown combinator
  goes unnoticed when no message is evaluated.
\<close>

theorem unknown_values_counterexample:
  "evaluate_emails (fixed_clock 0) [skipped_field_rule, odd_date_rule] [hello_email] None = Inr []
   \<and> evaluate_emails (fixed_clock 0) [some_rule] [] None = Inr []"
  by code_simp

text \<open>
  C4, as amended. When \<^verbatim>\<open>evaluate_emails\<close> returns, an evaluated message has an entry in
  the plan exactly when the rules that matched it have at least one action between them,
  and then the entry lists one pair \<open>(action, rule identifier)\<close> per action of every rule
  that matched, in rule-set order and, within a rule, in the rule's action order, each pair
  tagged with the identifier of the rule it comes from; no key occurs twice in the plan.
\<close>

theorem plan_entries:
  assumes "evaluate_emails clk rules stored ids = Inr plan"
    and "distinct (map email_id stored)"
    and "i < length (query_emails stored ids)"
  shows "map_of plan (email_id (query_emails stored ids ! i)) =
           (if matching_actions (clk i) 0 rules (query_emails stored ids ! i) = [] then None
            else Some (matching_actions (clk i) 0 rules (query_emails stored ids ! i)))
       \<and> distinct (map fst plan)"
proof -
  from assms(1) have p: "process_emails clk 0 rules (query_emails stored ids) [] = Inr plan"
    by (simp add: evaluate_emails_def)
  from process_emails_distinct_keys [OF p] evaluate_emails_lookup [OF assms]
  show ?thesis by simp
qed

theorem plan_entries_witness:
  "evaluate_emails (fixed_clock 0) [hello_rule, catch_all_rule] [hello_email, newsletter_email]
      None
     = Inr [(1, [(''mark_as_read'', ''R1''), (''move_message'', ''R2''), (''mark_as_unread'', ''R2'')]),
            (2, [(''move_message'', ''R2''), (''mark_as_unread'', ''R2'')])]
   \<and> matching_actions (fixed_clock 0 0) 0 [hello_rule, catch_all_rule] hello_email
     = [(''mark_as_read'', ''R1''), (''move_message'', ''R2''), (''mark_as_unread'', ''R2'')]
   \<and> matching_actions (fixed_clock 0 1) 0 [hello_rule, catch_all_rule] newsletter_email
     = [(''move_message'', ''R2''), (''mark_as_unread'', ''R2'')]"
proof -
  let ?rules = "[hello_rule, catch_all_rule]"
  let ?stored = "[hello_email, newsletter_email]"
  let ?plan = "[(1::int, [(''mark_as_read'', ''R1''), (''move_message'', ''R2''),
                   (''mark_as_unread'', ''R2'')]),
                (2, [(''move_message'', ''R2''), (''mark_as_unread'', ''R2'')])]"
  have e: "evaluate_emails (fixed_clock 0) ?rules ?stored None = Inr ?plan"
    by code_simp
  have d: "distinct (map email_id ?stored)"
    by (simp add: hello_email_def newsletter_email_def)
  have q: "query_emails ?stored None = ?stored"
    by (simp add: query_emails_def)
  have ids: "email_id hello_email = 1" "email_id newsletter_email = 2"
    by (simp_all add: hello_email_def newsletter_email_def)
  from plan_entries [OF e d, of 0] plan_entries [OF e d, of 1] e show ?thesis
    unfolding q by (simp add: ids split: if_splits)
qed

text \<open>
  C4 as stated fails: a message that matches a rule need not have an entry. The rule
  without actions matches the newsletter, the other rule does not, and the plan is empty.
\<close>

theorem plan_entries_counterexample:
  "rule_applies (fixed_clock 0 0 0) no_action_rule newsletter_email = Inr True
   \<and> rule_applies (fixed_clock 0 0 1) hello_rule newsletter_email = Inr False
   \<and> evaluate_emails (fixed_clock 0) [no_action_rule, hello_rule] [newsletter_email] None
     = Inr []"
  by code_simp

text \<open>
  C5. A date condition on a message whose \<^verbatim>\<open>received_date\<close> is absent, or whose comparison
  value does not parse as an integer, evaluates to false and raises nothing, whatever the
  predicate, the unit and the value are: both guards of \<^verbatim>\<open>_check_date_condition\<close> come
  before the unit and the predicate are looked at.
\<close>

theorem date_condition_soft_non_match:
  assumes "received_date email = None \<or> py_int (cond_value c) = None"
  shows "check_date_condition now predicate (cond_value c) unit (received_date email) = Inr False
       \<and> (lower (cond_field c) = ''received_date'' \<longrightarrow> condition_matches now c email = Inr False)"
proof -
  have "check_date_condition now p (cond_value c) u (received_date email) = Inr False" for p u
    using assms check_date_None check_date_unparsable by metis
  then show ?thesis by (simp add: condition_matches_date)
qed

theorem date_condition_soft_non_match_witness:
  "condition_matches 0 odd_date_condition hello_email = Inr False
   \<and> condition_matches 0 odd_date_condition (hello_email\<lparr>received_date := Some 5\<rparr>) = Inr False"
proof -
  have f: "lower (cond_field odd_date_condition) = ''received_date''" by code_simp
  have g: "received_date hello_email = None \<or> py_int (cond_value odd_date_condition) = None"
    by (simp add: hello_email_def)
  have h: "received_date (hello_email\<lparr>received_date := Some 5\<rparr>) = None
             \<or> py_int (cond_value odd_date_condition) = None"
    by code_simp
  show ?thesis
    using date_condition_soft_non_match [OF g, of 0 "''x''" "''y''"]
      date_condition_soft_non_match [OF h, of 0 "''x''" "''y''"] f
    by blast
qed

text \<open>
  C6. With unit \<^verbatim>\<open>months\<close> the elapsed time is the whole days between \<open>now\<close> and
  \<^verbatim>\<open>received_date\<close>, integer-divided by 30, compared strictly: \<^verbatim>\<open>less_than\<close> is \<open><\<close> and
  \<^verbatim>\<open>greater_than\<close> is \<open>>\<close>. With 59 elapsed days and value 2 under \<^verbatim>\<open>less_than\<close> the
  condition matches, with 60 days it does not.
\<close>

theorem months_are_thirty_days:
  assumes "py_int val = Some v"
  shows "check_date_condition now ''less_than'' val ''months'' (Some d)
           = Inr (timedelta_days (now - d) div 30 < v)
       \<and> check_date_condition now ''greater_than'' val ''months'' (Some d)
           = Inr (timedelta_days (now - d) div 30 > v)
       \<and> (timedelta_days (now - d) = 59 \<longrightarrow>
            check_date_condition now ''less_than'' ''2'' ''months'' (Some d) = Inr True)
       \<and> (timedelta_days (now - d) = 60 \<longrightarrow>
            check_date_condition now ''less_than'' ''2'' ''months'' (Some d) = Inr False)"
proof -
  have two: "py_int ''2'' = Some 2" by code_simp
  show ?thesis using assms two by (simp add: check_date_condition_def)
qed

theorem months_are_thirty_days_witness:
  "check_date_condition (59 * 86400000000 + 86399999999) ''less_than'' ''2'' ''months'' (Some 0)
     = Inr True
   \<and> check_date_condition (60 * 86400000000) ''less_than'' ''2'' ''months'' (Some 0) = Inr False
   \<and> check_date_condition (60 * 86400000000) ''greater_than'' ''1'' ''months'' (Some 0) = Inr True"
proof -
  have one: "py_int ''1'' = Some 1" by code_simp
  have a: "timedelta_days (59 * 86400000000 + 86399999999 - 0) = 59"
    by (simp add: timedelta_days_def)
  have b: "timedelta_days (60 * 86400000000 - 0) = 60"
    by (simp add: timedelta_days_def)
  show ?thesis
    using months_are_thirty_days [OF one, of "59 * 86400000000 + 86399999999" 0]
      months_are_thirty_days [OF one, of "60 * 86400000000" 0] a b
    by simp
qed

text \<open>
  C7. A rule with combinator \<^verbatim>\<open>all\<close> and no condition matches every message, and a rule
  with combinator \<^verbatim>\<open>any\<close> and no condition matches none.
\<close>

theorem empty_condition_list:
  "rule_applies nows \<lparr>rule_id = rid, rule_predicate = ''all'', rule_conditions = [],
       rule_actions = acts\<rparr> email = Inr True
   \<and> rule_applies nows \<lparr>rule_id = rid, rule_predicate = ''any'', rule_conditions = [],
       rule_actions = acts\<rparr> email = Inr False"
  by (simp add: rule_applies_def)

theorem empty_condition_list_witness:
  "rule_applies (fixed_clock 0 0 0) \<lparr>rule_id = ''R1'', rule_predicate = ''all'',
       rule_conditions = [], rule_actions = [''mark_as_read'']\<rparr> hello_email = Inr True
   \<and> rule_applies (fixed_clock 0 0 0) \<lparr>rule_id = ''R1'', rule_predicate = ''any'',
       rule_conditions = [], rule_actions = [''mark_as_read'']\<rparr> hello_email = Inr False"
  by (rule empty_condition_list)



text \<open>
  C9. An empty \<^verbatim>\<open>email_ids\<close> list is falsy, so the identifier filter is skipped: every
  stored message is evaluated, exactly as with \<^verbatim>\<open>None\<close>.
\<close>

theorem empty_id_list_selects_everything:
  "query_emails stored (Some []) = stored
   \<and> evaluate_emails clk rules stored (Some []) = evaluate_emails clk rules stored None"
  by (simp add: evaluate_emails_def query_emails_def)

theorem empty_id_list_selects_everything_witness:
  "query_emails [hello_email] (Some []) = [hello_email]
   \<and> evaluate_emails (fixed_clock 0) [hello_rule] [hello_email] (Some [])
       = Inr [(1, [(''mark_as_read'', ''R1'')])]"
proof -
  have "evaluate_emails (fixed_clock 0) [hello_rule] [hello_email] None
      = Inr [(1, [(''mark_as_read'', ''R1'')])]"
    by code_simp
  with empty_id_list_selects_everything [where stored = "[hello_email]"
      and clk = "fixed_clock 0" and rules = "[hello_rule]"]
  show ?thesis by simp
qed

text \<open>
  C10. Only the \<^verbatim>\<open>message\<close> field replaces an absent value by the empty string. A string
  condition on \<^verbatim>\<open>from\<close>, \<^verbatim>\<open>to\<close> or \<^verbatim>\<open>subject\<close> lower-cases the stored value as it is:
  when that value is absent and the predicate is one of the four string predicates, the
  check ends in the attribute error of \<^verbatim>\<open>None.lower()\<close>; when the three values are present,
  no condition check ends in it.
\<close>

theorem absent_field_values:
  "(lower (cond_field c) = ''message'' \<longrightarrow>
      condition_matches now c (email\<lparr>body_text := None\<rparr>)
        = condition_matches now c (email\<lparr>body_text := Some []\<rparr>))
   \<and> (((lower (cond_field c) = ''from'' \<and> from_address email = None)
         \<or> (lower (cond_field c) = ''to'' \<and> to_address email = None)
         \<or> (lower (cond_field c) = ''subject'' \<and> subject email = None))
        \<and> lower (cond_predicate c)
            \<in> {''contains'', ''does_not_contain'', ''equals'', ''does_not_equal''}
       \<longrightarrow> condition_matches now c email = Inl AttributeError)
   \<and> (from_address email \<noteq> None \<and> to_address email \<noteq> None \<and> subject email \<noteq> None
       \<longrightarrow> condition_matches now c email \<noteq> Inl AttributeError)"
proof (intro conjI impI)
  assume "lower (cond_field c) = ''message''"
  then show "condition_matches now c (email\<lparr>body_text := None\<rparr>)
        = condition_matches now c (email\<lparr>body_text := Some []\<rparr>)"
    by (simp add: condition_matches_message body_or_empty_def)
next
  assume a: "((lower (cond_field c) = ''from'' \<and> from_address email = None)
         \<or> (lower (cond_field c) = ''to'' \<and> to_address email = None)
         \<or> (lower (cond_field c) = ''subject'' \<and> subject email = None))
        \<and> lower (cond_predicate c)
            \<in> {''contains'', ''does_not_contain'', ''equals'', ''does_not_equal''}"
  then have "check_string_condition (lower (cond_predicate c)) (cond_value c) None
      = Inl AttributeError"
    unfolding check_string_None by auto
  with a show "condition_matches now c email = Inl AttributeError"
    by (metis condition_matches_from condition_matches_to condition_matches_subject)
next
  assume p: "from_address email \<noteq> None \<and> to_address email \<noteq> None \<and> subject email \<noteq> None"
  have s: "check_string_condition p v (Some fv) \<noteq> Inl AttributeError" for p v fv
    by (simp add: check_string_Some)
  consider "lower (cond_field c) = ''from''" | "lower (cond_field c) = ''to''"
    | "lower (cond_field c) = ''subject''" | "lower (cond_field c) = ''message''"
    | "lower (cond_field c) = ''received_date''"
    | "lower (cond_field c) \<noteq> ''from''" "lower (cond_field c) \<noteq> ''to''"
      "lower (cond_field c) \<noteq> ''subject''" "lower (cond_field c) \<noteq> ''message''"
      "lower (cond_field c) \<noteq> ''received_date''"
    by blast
  then show "condition_matches now c email \<noteq> Inl AttributeError"
  proof cases
    case 1 with p s show ?thesis by (auto simp: condition_matches_from)
  next
    case 2 with p s show ?thesis by (auto simp: condition_matches_to)
  next
    case 3 with p s show ?thesis by (auto simp: condition_matches_subject)
  next
    case 4 with s show ?thesis by (simp add: condition_matches_message)
  next
    case 5 then show ?thesis
      by (simp add: condition_matches_date check_date_not_attribute_error)
  next
    case 6 then show ?thesis by (simp add: condition_matches_unknown_field)
  qed
qed

theorem absent_field_values_witness:
  "condition_matches 0 to_condition hello_email = Inl AttributeError
   \<and> condition_matches 0 to_condition newsletter_email \<noteq> Inl AttributeError
   \<and> condition_matches 0 message_condition (hello_email\<lparr>body_text := None\<rparr>)
        = condition_matches 0 message_condition (hello_email\<lparr>body_text := Some []\<rparr>)"
proof -
  have a: "((lower (cond_field to_condition) = ''from'' \<and> from_address hello_email = None)
         \<or> (lower (cond_field to_condition) = ''to'' \<and> to_address hello_email = None)
         \<or> (lower (cond_field to_condition) = ''subject'' \<and> subject hello_email = None))
        \<and> lower (cond_predicate to_condition)
            \<in> {''contains'', ''does_not_contain'', ''equals'', ''does_not_equal''}"
    by code_simp
  have b: "from_address newsletter_email \<noteq> None \<and> to_address newsletter_email \<noteq> None
        \<and> subject newsletter_email \<noteq> None"
    by (simp add: newsletter_email_def)
  have c: "lower (cond_field message_condition) = ''message''" by code_simp
  show ?thesis
    using absent_field_values [of to_condition 0 hello_email]
      absent_field_values [of to_condition 0 newsletter_email]
      absent_field_values [of message_condition 0 hello_email] a b c
    by blast
qed

end
